theory Spec2Isabelle
  imports Complex_Main "HOL-Library.Sublist" "HOL-Library.Multiset"
begin

section \<open>Domain types (types/index.ts)\<close>

datatype Priority = Low | Medium | High | Critical

datatype Category = Work | Personal | Shopping | Health | Other

datatype Status = Todo | InProgress | Done

text \<open>
  An ISO-8601 date string is represented by the epoch milliseconds that
  \<^verbatim>\<open>new Date(s).getTime()\<close> yields for it; \<^verbatim>\<open>Date\<close> has millisecond resolution.
  An optional field that is \<^verbatim>\<open>undefined\<close> is \<open>None\<close>. For \<open>dueDate\<close> the empty string is
  falsy as well, so \<open>None\<close> stands for both.
\<close>

type_synonym timestamp = int

record Task =
  id_task :: string
  title :: string
  description :: "string option"
  priority :: Priority
  category :: Category
  status :: Status
  dueDate :: "timestamp option"
  createdAt :: timestamp
  updatedAt :: timestamp
  tags :: "string list"
  assignee :: "string option"

text \<open>
  A filter value is a concrete enum value or the sentinel \<^verbatim>\<open>'all'\<close>. The field
  \<open>sortBy\<close> of the filters has the type of the sort fields, to which \<^verbatim>\<open>applyFilters\<close>
  casts it.
\<close>

datatype 'a selection = All | Exact 'a

datatype SortField = TitleField | PriorityField | CreatedAtField | DueDateField | StatusField

datatype SortOrder = Asc | Desc

record TaskFilters =
  search :: string
  priorityFilter :: "Priority selection"
  categoryFilter :: "Category selection"
  statusFilter :: "Status selection"
  sortBy :: SortField
  sortOrder :: SortOrder

section \<open>Host functions on strings and arrays\<close>

text \<open>
  Strings are lists of 8-bit characters, read as the code points 0 to 255, so the model
  covers Latin-1 text. \<^verbatim>\<open>toLowerCase\<close> maps the upper-case letters of that range (65 to
  90, and 192 to 222 without the multiplication sign 215) to the letter 32 places
  further on, \<^verbatim>\<open>trim\<close> strips the white space of that range (tab, line feed, vertical
  tab, form feed, carriage return, space, no-break space) at both ends, and
  \<^verbatim>\<open>includes\<close> is the contiguous-substring test.
\<close>

definition lowerChar :: "char \<Rightarrow> char" where
  "lowerChar c =
     (if ((65::nat) \<le> of_char c \<and> of_char c \<le> (90::nat))
         \<or> ((192::nat) \<le> of_char c \<and> of_char c \<le> (222::nat) \<and> of_char c \<noteq> (215::nat))
      then char_of (of_char c + (32::nat)) else c)"

definition toLowerCase :: "string \<Rightarrow> string" where
  "toLowerCase s = map lowerChar s"

definition isWhiteSpace :: "char \<Rightarrow> bool" where
  "isWhiteSpace c = (of_char c \<in> {9, 10, 11, 12, 13, 32, 160 :: nat})"

definition trim :: "string \<Rightarrow> string" where
  "trim s = rev (dropWhile isWhiteSpace (rev (dropWhile isWhiteSpace s)))"

definition includes_str :: "string \<Rightarrow> string \<Rightarrow> bool" where
  "includes_str s q = sublist q s"

text \<open>
  \<^verbatim>\<open>localeCompare\<close> is the host's collation. It is modelled as the lexicographic
  comparison of the character codes with results \<open>-1\<close>, \<open>0\<close>, \<open>1\<close>. That agrees with the
  host on strings of lower-case ASCII letters, which is all that the development
  evaluates; on other characters the host's collation can order differently, and no
  property below depends on how titles compare.
\<close>

fun localeCompare :: "string \<Rightarrow> string \<Rightarrow> int" where
  "localeCompare [] [] = 0"
| "localeCompare [] (y # ys) = -1"
| "localeCompare (x # xs) [] = 1"
| "localeCompare (x # xs) (y # ys) =
     (if (of_char x :: nat) < of_char y then -1
      else if (of_char y :: nat) < of_char x then 1
      else localeCompare xs ys)"

text \<open>
  \<^verbatim>\<open>Array.prototype.sort(cmp)\<close> is a stable sort. It is modelled as insertion from the
  right: an element goes in front of the first element it does not compare greater than,
  so it stays in front of the later elements it ties with.
\<close>

fun insertBy :: "('a \<Rightarrow> 'a \<Rightarrow> int) \<Rightarrow> 'a \<Rightarrow> 'a list \<Rightarrow> 'a list" where
  "insertBy cmp x [] = [x]"
| "insertBy cmp x (y # ys) =
     (if cmp x y \<le> 0 then x # y # ys else y # insertBy cmp x ys)"

definition arraySort :: "('a \<Rightarrow> 'a \<Rightarrow> int) \<Rightarrow> 'a list \<Rightarrow> 'a list" where
  "arraySort cmp xs = foldr (insertBy cmp) xs []"

section \<open>Priority utilities (taskUtils.ts)\<close>

fun getPriorityWeight :: "Priority \<Rightarrow> int" where
  "getPriorityWeight Low = 1"
| "getPriorityWeight Medium = 2"
| "getPriorityWeight High = 3"
| "getPriorityWeight Critical = 4"

section \<open>Comparators and sorting (sorting.ts)\<close>

definition compareByTitle :: "Task \<Rightarrow> Task \<Rightarrow> int" where
  "compareByTitle a b = localeCompare (toLowerCase (title a)) (toLowerCase (title b))"

definition compareByPriority :: "Task \<Rightarrow> Task \<Rightarrow> int" where
  "compareByPriority a b = getPriorityWeight (priority b) - getPriorityWeight (priority a)"

definition compareByCreatedAt :: "Task \<Rightarrow> Task \<Rightarrow> int" where
  "compareByCreatedAt a b = createdAt b - createdAt a"

definition compareByDueDate :: "Task \<Rightarrow> Task \<Rightarrow> int" where
  "compareByDueDate a b =
     (if dueDate a = None \<and> dueDate b = None then 0
      else if dueDate a = None then 1
      else if dueDate b = None then -1
      else the (dueDate a) - the (dueDate b))"

fun statusLabel :: "Status \<Rightarrow> string" where
  "statusLabel Todo = ''todo''"
| "statusLabel InProgress = ''in-progress''"
| "statusLabel Done = ''done''"

fun COMPARATORS :: "SortField \<Rightarrow> Task \<Rightarrow> Task \<Rightarrow> int" where
  "COMPARATORS TitleField = compareByTitle"
| "COMPARATORS PriorityField = compareByPriority"
| "COMPARATORS CreatedAtField = compareByCreatedAt"
| "COMPARATORS DueDateField = compareByDueDate"
| "COMPARATORS StatusField = (\<lambda>a b. localeCompare (statusLabel (status a)) (statusLabel (status b)))"

definition sortTasks :: "Task list \<Rightarrow> SortField \<Rightarrow> SortOrder \<Rightarrow> Task list" where
  "sortTasks tasks field' order' =
     (let comparator = COMPARATORS field';
          sorted = arraySort comparator tasks
      in if order' = Desc then rev sorted else sorted)"

record SortCriteria =
  field :: SortField
  order :: SortOrder

text \<open>The comparator that \<^verbatim>\<open>multiSort\<close> passes to \<^verbatim>\<open>sort\<close>: the loop over the criteria.\<close>

fun multiSortCompare :: "SortCriteria list \<Rightarrow> Task \<Rightarrow> Task \<Rightarrow> int" where
  "multiSortCompare [] a b = 0"
| "multiSortCompare (c # criteria) a b =
     (let cmp = COMPARATORS (field c) a b
      in if cmp \<noteq> 0 then (if order c = Asc then cmp else - cmp)
         else multiSortCompare criteria a b)"

definition multiSort :: "Task list \<Rightarrow> SortCriteria list \<Rightarrow> Task list" where
  "multiSort tasks criteria = arraySort (multiSortCompare criteria) tasks"

text \<open>
  The tie-break rule in the words of the specification, for comparison with
  \<open>multiSortCompare\<close>: a non-zero comparator result is negated when the order is
  \<^verbatim>\<open>asc\<close> and returned unchanged when it is \<^verbatim>\<open>desc\<close>.
\<close>

fun multiSortCompare_spec :: "SortCriteria list \<Rightarrow> Task \<Rightarrow> Task \<Rightarrow> int" where
  "multiSortCompare_spec [] a b = 0"
| "multiSortCompare_spec (c # criteria) a b =
     (let cmp = COMPARATORS (field c) a b
      in if cmp \<noteq> 0 then (if order c = Asc then - cmp else cmp)
         else multiSortCompare_spec criteria a b)"

section \<open>Overdue detection (taskUtils.ts, filtering.ts)\<close>

text \<open>
  \<^verbatim>\<open>isTaskOverdue\<close> reads the wall clock with \<^verbatim>\<open>new Date()\<close>; the clock value is the
  parameter \<open>now\<close>.
\<close>

definition isTaskOverdue :: "timestamp \<Rightarrow> Task \<Rightarrow> bool" where
  "isTaskOverdue now task =
     (if dueDate task = None \<or> status task = Done then False
      else now > the (dueDate task))"

section \<open>Filter stages (taskUtils.ts, filtering.ts)\<close>

definition searchCallback :: "string \<Rightarrow> Task \<Rightarrow> bool" where
  "searchCallback q task =
     (includes_str (toLowerCase (title task)) q
      \<or> (case description task of None \<Rightarrow> False | Some d \<Rightarrow> includes_str (toLowerCase d) q)
      \<or> list_ex (\<lambda>tag. includes_str (toLowerCase tag) q) (tags task))"

definition filterTasksBySearch :: "Task list \<Rightarrow> string \<Rightarrow> Task list" where
  "filterTasksBySearch tasks query =
     (let q = toLowerCase (trim query)
      in if q = [] then tasks else filter (searchCallback q) tasks)"

definition filterByPriority :: "Task list \<Rightarrow> Priority selection \<Rightarrow> Task list" where
  "filterByPriority tasks p =
     (case p of All \<Rightarrow> tasks | Exact v \<Rightarrow> filter (\<lambda>t. priority t = v) tasks)"

definition filterByCategory :: "Task list \<Rightarrow> Category selection \<Rightarrow> Task list" where
  "filterByCategory tasks c =
     (case c of All \<Rightarrow> tasks | Exact v \<Rightarrow> filter (\<lambda>t. category t = v) tasks)"

definition filterByStatus :: "Task list \<Rightarrow> Status selection \<Rightarrow> Task list" where
  "filterByStatus tasks s =
     (case s of All \<Rightarrow> tasks | Exact v \<Rightarrow> filter (\<lambda>t. status t = v) tasks)"

text \<open>The callback of \<^verbatim>\<open>filterOverdue\<close>, with the clock value read once before the pass.\<close>

definition overdueCallback :: "timestamp \<Rightarrow> Task \<Rightarrow> bool" where
  "overdueCallback now t =
     (case dueDate t of None \<Rightarrow> False | Some d \<Rightarrow> status t \<noteq> Done \<and> d < now)"

definition filterOverdue :: "timestamp \<Rightarrow> Task list \<Rightarrow> Task list" where
  "filterOverdue now tasks = filter (overdueCallback now) tasks"

definition applyFilters :: "Task list \<Rightarrow> TaskFilters \<Rightarrow> Task list" where
  "applyFilters tasks filters =
     (let result = filterTasksBySearch tasks (search filters);
          result = filterByPriority result (priorityFilter filters);
          result = filterByCategory result (categoryFilter filters);
          result = filterByStatus result (statusFilter filters);
          result = sortTasks result (sortBy filters) (sortOrder filters)
      in result)"

section \<open>Double-precision arithmetic of the host\<close>

text \<open>
  JavaScript numbers are IEEE-754 binary64 values. A finite double is represented by the
  rational it denotes; \<open>toBinary64\<close> rounds a non-negative rational to the nearest double
  with a 53-bit significand, ties to even. Exponent limits are left out: the values that
  occur (quotients of array lengths and their products with 100) are far from them.
\<close>

text \<open>The number of binary digits of a positive integer.\<close>

function bitlen :: "int \<Rightarrow> nat" where
  "bitlen n = (if n \<le> 0 then 0 else Suc (bitlen (n div 2)))"
  by pat_completeness auto
termination
  by (relation "measure nat") auto

declare bitlen.simps [simp del]

definition scale2 :: "rat \<Rightarrow> int \<Rightarrow> rat" where
  "scale2 q k = (if 0 \<le> k then q * 2 ^ nat k else q / 2 ^ nat (- k))"

definition roundTiesToEven :: "rat \<Rightarrow> int" where
  "roundTiesToEven q =
     (let f = \<lfloor>q\<rfloor>; r = q - of_int f
      in if r < 1 / 2 then f
         else if 1 / 2 < r then f + 1
         else if even f then f else f + 1)"

definition toBinary64 :: "rat \<Rightarrow> rat" where
  "toBinary64 q =
     (if q \<le> 0 then 0
      else let (a, b) = quotient_of q;
               k0 = 53 + int (bitlen b) - int (bitlen a);
               k = (if 2 ^ 53 \<le> scale2 q k0 then k0 - 1 else k0)
           in scale2 (of_int (roundTiesToEven (scale2 q k))) (- k))"

definition float_div :: "rat \<Rightarrow> rat \<Rightarrow> rat" where
  "float_div x y = toBinary64 (x / y)"

definition float_mul :: "rat \<Rightarrow> rat \<Rightarrow> rat" where
  "float_mul x y = toBinary64 (x * y)"

text \<open>\<^verbatim>\<open>Math.round\<close>: the nearest integer, a tie going towards \<open>+\<infinity>\<close>.\<close>

definition Math_round :: "rat \<Rightarrow> int" where
  "Math_round x = \<lfloor>x + 1 / 2\<rfloor>"

section \<open>Statistics (taskUtils.ts)\<close>

record TaskStats =
  total :: nat
  byStatus :: "Status \<rightharpoonup> nat"
  byPriority :: "Priority \<rightharpoonup> nat"
  byCategory :: "Category \<rightharpoonup> nat"
  overdue :: nat
  completionRate :: int

text \<open>
  \<^verbatim>\<open>obj[key]++\<close> on a counter object. Every key of the three counter objects is written by
  the object literal that creates them, so the branch for a missing key is never taken.
\<close>

definition increment :: "('k \<rightharpoonup> nat) \<Rightarrow> 'k \<Rightarrow> ('k \<rightharpoonup> nat)" where
  "increment m k = (case m k of None \<Rightarrow> m | Some n \<Rightarrow> m(k \<mapsto> n + 1))"

definition initialStats :: "nat \<Rightarrow> TaskStats" where
  "initialStats n =
     \<lparr> total = n,
       byStatus = [Todo \<mapsto> 0, InProgress \<mapsto> 0, Done \<mapsto> 0],
       byPriority = [Low \<mapsto> 0, Medium \<mapsto> 0, High \<mapsto> 0, Critical \<mapsto> 0],
       byCategory = [Work \<mapsto> 0, Personal \<mapsto> 0, Shopping \<mapsto> 0, Health \<mapsto> 0, Other \<mapsto> 0],
       overdue = 0,
       completionRate = 0 \<rparr>"

text \<open>The body of the \<^verbatim>\<open>forEach\<close> callback.\<close>

definition statsStep :: "timestamp \<Rightarrow> TaskStats \<Rightarrow> Task \<Rightarrow> TaskStats" where
  "statsStep now stats task =
     (let stats = stats\<lparr>byStatus := increment (byStatus stats) (status task)\<rparr>;
          stats = stats\<lparr>byPriority := increment (byPriority stats) (priority task)\<rparr>;
          stats = stats\<lparr>byCategory := increment (byCategory stats) (category task)\<rparr>
      in if isTaskOverdue now task then stats\<lparr>overdue := overdue stats + 1\<rparr> else stats)"

definition counter :: "('k \<rightharpoonup> nat) \<Rightarrow> 'k \<Rightarrow> nat" where
  "counter m k = (case m k of None \<Rightarrow> 0 | Some n \<Rightarrow> n)"

definition calculateStats :: "timestamp \<Rightarrow> Task list \<Rightarrow> TaskStats" where
  "calculateStats now tasks =
     (let stats = foldl (statsStep now) (initialStats (length tasks)) tasks
      in stats\<lparr>completionRate :=
           (if length tasks > 0
            then Math_round
                   (float_mul
                      (float_div (of_nat (counter (byStatus stats) Done)) (of_nat (length tasks)))
                      100)
            else 0)\<rparr>)"

section \<open>Record updates (taskUtils.ts)\<close>

text \<open>
  \<^verbatim>\<open>Partial<Task>\<close>: every key may be absent (\<open>None\<close>). A key of an optional field that is
  present may carry \<^verbatim>\<open>undefined\<close> (\<open>Some None\<close>).
\<close>

record TaskUpdates =
  id_upd :: "string option"
  title_upd :: "string option"
  description_upd :: "string option option"
  priority_upd :: "Priority option"
  category_upd :: "Category option"
  status_upd :: "Status option"
  dueDate_upd :: "timestamp option option"
  createdAt_upd :: "timestamp option"
  updatedAt_upd :: "timestamp option"
  tags_upd :: "string list option"
  assignee_upd :: "string option option"

text \<open>One key of the object spread \<^verbatim>\<open>{...task, ...updates}\<close>: a key of \<open>updates\<close> wins.\<close>

definition spreadKey :: "'a \<Rightarrow> 'a option \<Rightarrow> 'a" where
  "spreadKey old new = (case new of None \<Rightarrow> old | Some v \<Rightarrow> v)"

definition spread :: "Task \<Rightarrow> TaskUpdates \<Rightarrow> Task" where
  "spread task updates =
     \<lparr> id_task = spreadKey (id_task task) (id_upd updates),
       title = spreadKey (title task) (title_upd updates),
       description = spreadKey (description task) (description_upd updates),
       priority = spreadKey (priority task) (priority_upd updates),
       category = spreadKey (category task) (category_upd updates),
       status = spreadKey (status task) (status_upd updates),
       dueDate = spreadKey (dueDate task) (dueDate_upd updates),
       createdAt = spreadKey (createdAt task) (createdAt_upd updates),
       updatedAt = spreadKey (updatedAt task) (updatedAt_upd updates),
       tags = spreadKey (tags task) (tags_upd updates),
       assignee = spreadKey (assignee task) (assignee_upd updates) \<rparr>"

text \<open>\<open>now\<close> is the value of \<^verbatim>\<open>new Date().toISOString()\<close>.\<close>

definition updateTask :: "timestamp \<Rightarrow> Task \<Rightarrow> TaskUpdates \<Rightarrow> Task" where
  "updateTask now task updates =
     (spread task updates)\<lparr> id_task := id_task task,
                             createdAt := createdAt task,
                             updatedAt := now \<rparr>"

section \<open>The store: arrays and objects by reference\<close>

text \<open>
  Arrays and task objects live in a store and are passed by reference. A store maps
  references to contents and hands out fresh references in increasing order.
\<close>

record 'a store =
  cells :: "nat \<rightharpoonup> 'a"
  nextRef :: nat

definition alloc :: "'a \<Rightarrow> 'a store \<Rightarrow> nat \<times> 'a store" where
  "alloc v h = (nextRef h, \<lparr> cells = (cells h)(nextRef h \<mapsto> v), nextRef = Suc (nextRef h) \<rparr>)"

definition contents :: "'a list store \<Rightarrow> nat \<Rightarrow> 'a list" where
  "contents h r = (case cells h r of None \<Rightarrow> [] | Some xs \<Rightarrow> xs)"

text \<open>\<^verbatim>\<open>arr.filter(p)\<close> and \<^verbatim>\<open>[...arr]\<close> allocate; \<^verbatim>\<open>sort\<close> and \<^verbatim>\<open>reverse\<close> work in place.\<close>

definition array_filter :: "('a \<Rightarrow> bool) \<Rightarrow> nat \<Rightarrow> 'a list store \<Rightarrow> nat \<times> 'a list store" where
  "array_filter p r h = alloc (filter p (contents h r)) h"

definition array_copy :: "nat \<Rightarrow> 'a list store \<Rightarrow> nat \<times> 'a list store" where
  "array_copy r h = alloc (contents h r) h"

definition array_sort :: "('a \<Rightarrow> 'a \<Rightarrow> int) \<Rightarrow> nat \<Rightarrow> 'a list store \<Rightarrow> nat \<times> 'a list store" where
  "array_sort cmp r h = (r, h\<lparr>cells := (cells h)(r \<mapsto> arraySort cmp (contents h r))\<rparr>)"

definition array_reverse :: "nat \<Rightarrow> 'a list store \<Rightarrow> nat \<times> 'a list store" where
  "array_reverse r h = (r, h\<lparr>cells := (cells h)(r \<mapsto> rev (contents h r))\<rparr>)"

definition filterTasksBySearch_st ::
  "nat \<Rightarrow> string \<Rightarrow> Task list store \<Rightarrow> nat \<times> Task list store" where
  "filterTasksBySearch_st tasks query h =
     (let q = toLowerCase (trim query)
      in if q = [] then (tasks, h) else array_filter (searchCallback q) tasks h)"

definition filterByPriority_st ::
  "nat \<Rightarrow> Priority selection \<Rightarrow> Task list store \<Rightarrow> nat \<times> Task list store" where
  "filterByPriority_st tasks p h =
     (case p of All \<Rightarrow> (tasks, h) | Exact v \<Rightarrow> array_filter (\<lambda>t. priority t = v) tasks h)"

definition filterByCategory_st ::
  "nat \<Rightarrow> Category selection \<Rightarrow> Task list store \<Rightarrow> nat \<times> Task list store" where
  "filterByCategory_st tasks c h =
     (case c of All \<Rightarrow> (tasks, h) | Exact v \<Rightarrow> array_filter (\<lambda>t. category t = v) tasks h)"

definition filterByStatus_st ::
  "nat \<Rightarrow> Status selection \<Rightarrow> Task list store \<Rightarrow> nat \<times> Task list store" where
  "filterByStatus_st tasks s h =
     (case s of All \<Rightarrow> (tasks, h) | Exact v \<Rightarrow> array_filter (\<lambda>t. status t = v) tasks h)"

definition sortTasks_st ::
  "nat \<Rightarrow> SortField \<Rightarrow> SortOrder \<Rightarrow> Task list store \<Rightarrow> nat \<times> Task list store" where
  "sortTasks_st tasks field' order' h =
     (let comparator = COMPARATORS field';
          (copy, h) = array_copy tasks h;
          (sorted, h) = array_sort comparator copy h
      in if order' = Desc then array_reverse sorted h else (sorted, h))"

definition applyFilters_st ::
  "nat \<Rightarrow> TaskFilters \<Rightarrow> Task list store \<Rightarrow> nat \<times> Task list store" where
  "applyFilters_st tasks filters h =
     (let (result, h) = filterTasksBySearch_st tasks (search filters) h;
          (result, h) = filterByPriority_st result (priorityFilter filters) h;
          (result, h) = filterByCategory_st result (categoryFilter filters) h;
          (result, h) = filterByStatus_st result (statusFilter filters) h;
          (result, h) = sortTasks_st result (sortBy filters) (sortOrder filters) h
      in (result, h))"

text \<open>
  \<^verbatim>\<open>updateTask\<close> on a store of task objects: the object literal allocates the result, the
  argument is only read. A reference that holds no object yields no result.
\<close>

definition updateTask_st ::
  "timestamp \<Rightarrow> nat \<Rightarrow> TaskUpdates \<Rightarrow> Task store \<Rightarrow> (nat \<times> Task store) option" where
  "updateTask_st now task updates h =
     (case cells h task of
        None \<Rightarrow> None
      | Some t \<Rightarrow> Some (alloc (updateTask now t updates) h))"

section \<open>Fixtures (tests/unit/sorting.test.ts)\<close>

definition BASE :: Task where
  "BASE =
     \<lparr> id_task = ''x'', title = ''Base'', description = None, priority = Medium,
       category = Work, status = Todo, dueDate = None,
       createdAt = 1704067200000, updatedAt = 1704067200000, tags = [], assignee = None \<rparr>"

definition zebraTask :: Task where
  "zebraTask = BASE\<lparr> id_task := ''1'', title := ''Zebra task'', priority := Low,
                      createdAt := 1704067200000, dueDate := Some 1709251200000 \<rparr>"

definition appleTask :: Task where
  "appleTask = BASE\<lparr> id_task := ''2'', title := ''Apple task'', priority := Critical,
                      createdAt := 1704240000000, dueDate := Some 1705276800000 \<rparr>"

definition mangoTask :: Task where
  "mangoTask = BASE\<lparr> id_task := ''3'', title := ''Mango task'', priority := High,
                      createdAt := 1704153600000, dueDate := None \<rparr>"

definition TASKS :: "Task list" where
  "TASKS = [zebraTask, appleTask, mangoTask]"

text \<open>The default filters (types/index.ts) and the tasks of the pipeline scenario.\<close>

definition DEFAULT_FILTERS :: TaskFilters where
  "DEFAULT_FILTERS =
     \<lparr> search = '''', priorityFilter = All, categoryFilter = All, statusFilter = All,
       sortBy = CreatedAtField, sortOrder = Desc \<rparr>"

definition lowTodo :: Task where
  "lowTodo = BASE\<lparr> priority := Low, status := Todo \<rparr>"

definition criticalDone :: Task where
  "criticalDone = BASE\<lparr> priority := Critical, status := Done \<rparr>"

text \<open>A store that holds the fixture in two arrays that share nothing.\<close>

definition store0 :: "Task list store" where
  "store0 = \<lparr> cells = [0 \<mapsto> TASKS, 1 \<mapsto> TASKS], nextRef = 2 \<rparr>"

text \<open>An update payload that tries to overwrite the protected keys, and a store of one task.\<close>

definition noUpdates :: TaskUpdates where
  "noUpdates =
     \<lparr> id_upd = None, title_upd = None, description_upd = None, priority_upd = None,
       category_upd = None, status_upd = None, dueDate_upd = None, createdAt_upd = None,
       updatedAt_upd = None, tags_upd = None, assignee_upd = None \<rparr>"

definition hackedUpdates :: TaskUpdates where
  "hackedUpdates =
     noUpdates\<lparr> id_upd := Some ''hacked_id'', title_upd := Some ''New title'',
                 createdAt_upd := Some 4070908800000, dueDate_upd := Some None \<rparr>"

definition taskStore0 :: "Task store" where
  "taskStore0 = \<lparr> cells = [0 \<mapsto> appleTask], nextRef = 1 \<rparr>"



text \<open>The tied pair and the criteria of the tie-break test.\<close>

definition zapTask :: Task where
  "zapTask = BASE\<lparr> id_task := ''a'', title := ''Zap'', priority := High \<rparr>"

definition alphaTask :: Task where
  "alphaTask = BASE\<lparr> id_task := ''b'', title := ''Alpha'', priority := High \<rparr>"

definition tieCriteria :: "SortCriteria list" where
  "tieCriteria = [\<lparr> field = PriorityField, order = Asc \<rparr>, \<lparr> field = TitleField, order = Asc \<rparr>]"

section \<open>Orderings that the properties speak about\<close>

text \<open>The number of elements of a list that satisfy a predicate.\<close>

definition countBy :: "('a \<Rightarrow> bool) \<Rightarrow> 'a list \<Rightarrow> nat" where
  "countBy p xs = length (filter p xs)"





text \<open>
  A list is in the order of a comparator when no element is followed, anywhere later in
  the list, by an element that the comparator puts strictly before it.
\<close>

definition inComparatorOrder :: "('a \<Rightarrow> 'a \<Rightarrow> int) \<Rightarrow> 'a list \<Rightarrow> bool" where
  "inComparatorOrder cmp xs = sorted_wrt (\<lambda>a b. cmp a b \<le> 0) xs"


definition datedBeforeUndated :: "Task list \<Rightarrow> bool" where
  "datedBeforeUndated xs = sorted_wrt (\<lambda>a b. dueDate a = None \<longrightarrow> dueDate b = None) xs"

definition undatedBeforeDated :: "Task list \<Rightarrow> bool" where
  "undatedBeforeDated xs = sorted_wrt (\<lambda>a b. dueDate b = None \<longrightarrow> dueDate a = None) xs"

definition dueNotAfter :: "Task \<Rightarrow> Task \<Rightarrow> bool" where
  "dueNotAfter a b =
     (case dueDate a of None \<Rightarrow> True
      | Some x \<Rightarrow> (case dueDate b of None \<Rightarrow> True | Some y \<Rightarrow> x \<le> y))"

definition earlierDueFirst :: "Task list \<Rightarrow> bool" where
  "earlierDueFirst xs = sorted_wrt dueNotAfter xs"

definition laterDueFirst :: "Task list \<Rightarrow> bool" where
  "laterDueFirst xs = sorted_wrt (\<lambda>a b. dueNotAfter b a) xs"

text \<open>
  A later store preserves an earlier one when every reference that the earlier store has
  handed out still holds the same contents.
\<close>

definition preserves :: "'a store \<Rightarrow> 'a store \<Rightarrow> bool" where
  "preserves h h' \<longleftrightarrow> nextRef h \<le> nextRef h' \<and> (\<forall>a<nextRef h. cells h' a = cells h a)"

text \<open>
  An operation on array references implements a function on lists when, run on a
  reference that the store has handed out, it returns a reference whose contents are
  the function's result on the argument's contents, and preserves the store.
\<close>

definition implements ::
  "(nat \<Rightarrow> 'a list store \<Rightarrow> nat \<times> 'a list store) \<Rightarrow> ('a list \<Rightarrow> 'a list) \<Rightarrow> bool" where
  "implements op g \<longleftrightarrow>
     (\<forall>r h r' h'. r < nextRef h \<longrightarrow> op r h = (r', h') \<longrightarrow>
        contents h' r' = g (contents h r) \<and> r' < nextRef h' \<and> preserves h h')"

text \<open>
  A comparator is consistent, in the sense the language standard asks of the argument
  of \<^verbatim>\<open>sort\<close>, when swapping its arguments swaps the sign of the result and "not after"
  is transitive.
\<close>

definition consistent :: "('a \<Rightarrow> 'a \<Rightarrow> int) \<Rightarrow> bool" where
  "consistent cmp \<longleftrightarrow>
     (\<forall>x y. cmp y x < 0 \<longleftrightarrow> 0 < cmp x y) \<and>
     (\<forall>x y z. cmp x y \<le> 0 \<longrightarrow> cmp y z \<le> 0 \<longrightarrow> cmp x z \<le> 0)"

text \<open>Two elements tie under a comparator when it returns zero for them.\<close>

definition ties :: "('a \<Rightarrow> 'a \<Rightarrow> int) \<Rightarrow> 'a \<Rightarrow> 'a \<Rightarrow> bool" where
  "ties cmp x y \<longleftrightarrow> cmp x y = 0"

section \<open>Properties of the filter stages\<close>

lemma filterTasksBySearch_subseq: "subseq (filterTasksBySearch tasks query) tasks"
  by (simp add: filterTasksBySearch_def Let_def)

lemma filterByPriority_subseq: "subseq (filterByPriority tasks p) tasks"
  by (cases p) (simp_all add: filterByPriority_def)

lemma filterByCategory_subseq: "subseq (filterByCategory tasks c) tasks"
  by (cases c) (simp_all add: filterByCategory_def)

lemma filterByStatus_subseq: "subseq (filterByStatus tasks s) tasks"
  by (cases s) (simp_all add: filterByStatus_def)

lemma filterOverdue_subseq: "subseq (filterOverdue now tasks) tasks"
  by (simp add: filterOverdue_def)

text \<open>
  C10. Each filter stage (search, priority, category, status, overdue) returns a
  subsequence of its input: the retained tasks occur in the input in the same relative
  order, and none is duplicated or introduced.
\<close>

theorem filter_stages_subseq:
  "subseq (filterTasksBySearch tasks query) tasks
   \<and> subseq (filterByPriority tasks p) tasks
   \<and> subseq (filterByCategory tasks c) tasks
   \<and> subseq (filterByStatus tasks s) tasks
   \<and> subseq (filterOverdue now tasks) tasks"
  by (simp only: filterTasksBySearch_subseq filterByPriority_subseq filterByCategory_subseq
      filterByStatus_subseq filterOverdue_subseq simp_thms)

section \<open>Properties of the overdue predicate\<close>

lemma overdueCallback_eq: "overdueCallback now t = isTaskOverdue now t"
  by (cases "dueDate t") (auto simp: overdueCallback_def isTaskOverdue_def)

text \<open>
  C4. A task is overdue exactly when it has a due date, its status is not done, and
  the current time is strictly after the due date; the callback of the overdue filter is
  the same predicate. A task due at the current instant is not overdue, a task due
  earlier is (unless done), and a task without a due date or with status done never is.
\<close>

theorem isTaskOverdue_iff:
  "(isTaskOverdue now task \<longleftrightarrow>
      (\<exists>d. dueDate task = Some d \<and> status task \<noteq> Done \<and> d < now))
   \<and> overdueCallback now task = isTaskOverdue now task
   \<and> filterOverdue now tasks = filter (isTaskOverdue now) tasks
   \<and> (dueDate task = Some now \<longrightarrow> \<not> isTaskOverdue now task)
   \<and> (dueDate task = Some d' \<and> d' < now \<and> status task \<noteq> Done \<longrightarrow> isTaskOverdue now task)
   \<and> (dueDate task = None \<or> status task = Done \<longrightarrow> \<not> isTaskOverdue now task)"
proof -
  have cb: "overdueCallback now = isTaskOverdue now"
    by (rule ext) (rule overdueCallback_eq)
  have "filterOverdue now tasks = filter (isTaskOverdue now) tasks"
    by (simp add: filterOverdue_def cb)
  moreover have "isTaskOverdue now task \<longleftrightarrow>
      (\<exists>d. dueDate task = Some d \<and> status task \<noteq> Done \<and> d < now)"
    by (cases "dueDate task") (auto simp: isTaskOverdue_def)
  ultimately show ?thesis
    by (auto simp: overdueCallback_eq)
qed

theorem isTaskOverdue_iff_witness:
  "dueDate (appleTask\<lparr>dueDate := Some 1718452800000\<rparr>) = Some 1718452800000
   \<and> \<not> isTaskOverdue 1718452800000 (appleTask\<lparr>dueDate := Some 1718452800000\<rparr>)
   \<and> isTaskOverdue 1718452800000 (appleTask\<lparr>dueDate := Some 1718452799999\<rparr>)
   \<and> \<not> isTaskOverdue 1718452800000 (appleTask\<lparr>dueDate := Some 1718452799999, status := Done\<rparr>)
   \<and> \<not> isTaskOverdue 1718452800000 mangoTask"
  using isTaskOverdue_iff [of 1718452800000 "appleTask\<lparr>dueDate := Some 1718452800000\<rparr>"]
    isTaskOverdue_iff [of 1718452800000 "appleTask\<lparr>dueDate := Some 1718452799999\<rparr>"]
    isTaskOverdue_iff [of 1718452800000 "appleTask\<lparr>dueDate := Some 1718452799999, status := Done\<rparr>"]
    isTaskOverdue_iff [of 1718452800000 mangoTask]
  by (simp add: appleTask_def mangoTask_def BASE_def)

section \<open>Properties of sorting\<close>

lemma set_insertBy: "set (insertBy cmp x xs) = insert x (set xs)"
  by (induction xs) auto

lemma mset_insertBy: "mset (insertBy cmp x xs) = add_mset x (mset xs)"
  by (induction xs) auto

lemma mset_arraySort: "mset (arraySort cmp xs) = mset xs"
  by (induction xs) (simp_all add: arraySort_def mset_insertBy)

lemma arraySort_Cons: "arraySort cmp (x # xs) = insertBy cmp x (arraySort cmp xs)"
  by (simp add: arraySort_def)

lemma arraySort_Nil: "arraySort cmp [] = []"
  by (simp add: arraySort_def)

lemma sorted_insertBy:
  assumes tot: "\<And>x y. 0 < cmp x y \<Longrightarrow> cmp y x \<le> 0"
    and trans: "\<And>x y z. cmp x y \<le> 0 \<Longrightarrow> cmp y z \<le> 0 \<Longrightarrow> cmp x z \<le> 0"
    and srt: "sorted_wrt (\<lambda>a b. cmp a b \<le> 0) xs"
  shows "sorted_wrt (\<lambda>a b. cmp a b \<le> 0) (insertBy cmp x xs)"
  using srt
proof (induction xs)
  case Nil
  then show ?case by simp
next
  case (Cons y ys)
  show ?case
  proof (cases "cmp x y \<le> 0")
    case True
    have "cmp x z \<le> 0" if "z \<in> set ys" for z
    proof -
      from Cons.prems that have "cmp y z \<le> 0" by simp
      with True show ?thesis by (rule trans)
    qed
    with True Cons.prems show ?thesis by simp
  next
    case False
    then have "cmp y x \<le> 0" using tot [of x y] by simp
    with False Cons show ?thesis by (auto simp: set_insertBy)
  qed
qed

lemma consistentD1: "consistent cmp \<Longrightarrow> 0 < cmp x y \<Longrightarrow> cmp y x \<le> 0"
  unfolding consistent_def by (simp add: less_imp_le)

lemma consistent_flip: "consistent cmp \<Longrightarrow> cmp y x < 0 \<longleftrightarrow> 0 < cmp x y"
  unfolding consistent_def by blast

lemma consistentD2: "consistent cmp \<Longrightarrow> cmp x y \<le> 0 \<Longrightarrow> cmp y z \<le> 0 \<Longrightarrow> cmp x z \<le> 0"
  unfolding consistent_def by blast

lemma sorted_arraySort:
  "consistent cmp \<Longrightarrow> sorted_wrt (\<lambda>a b. cmp a b \<le> 0) (arraySort cmp xs)"
proof (induction xs)
  case Nil
  then show ?case by (simp add: arraySort_Nil)
next
  case (Cons x xs)
  have "sorted_wrt (\<lambda>a b. cmp a b \<le> 0) (insertBy cmp x (arraySort cmp xs))"
  proof (rule sorted_insertBy)
    show "\<And>x y. 0 < cmp x y \<Longrightarrow> cmp y x \<le> 0"
      using Cons.prems by (rule consistentD1)
    show "\<And>x y z. cmp x y \<le> 0 \<Longrightarrow> cmp y z \<le> 0 \<Longrightarrow> cmp x z \<le> 0"
      using Cons.prems by (rule consistentD2)
    show "sorted_wrt (\<lambda>a b. cmp a b \<le> 0) (arraySort cmp xs)"
      using Cons by simp
  qed
  then show ?case by (simp add: arraySort_Cons)
qed

text \<open>
  The sort keeps tied elements in their input order, and for a consistent comparator it
  is the only arrangement that is in the comparator's order and does so: whatever stable
  algorithm the host uses, it returns this list.
\<close>

lemma consistent_refl: "consistent cmp \<Longrightarrow> cmp x x = 0"
  using consistent_flip [of cmp x x] by (cases "cmp x x < 0") auto

lemma ties_refl: "consistent cmp \<Longrightarrow> ties cmp x x"
  by (simp add: ties_def consistent_refl)

lemma ties_sym: "consistent cmp \<Longrightarrow> ties cmp x y \<Longrightarrow> ties cmp y x"
  using consistent_flip [of cmp x y] consistent_flip [of cmp y x]
  by (simp add: ties_def)

lemma ties_trans:
  assumes c: "consistent cmp" and xy: "ties cmp x y" and yz: "ties cmp y z"
  shows "ties cmp x z"
proof -
  from xy yz have "cmp x y \<le> 0" "cmp y z \<le> 0"
    by (simp_all add: ties_def)
  with c have le: "cmp x z \<le> 0"
    by (rule consistentD2)
  from ties_sym [OF c xy] ties_sym [OF c yz] have "cmp z y \<le> 0" "cmp y x \<le> 0"
    by (simp_all add: ties_def)
  with c have "cmp z x \<le> 0"
    by (rule consistentD2)
  then have "\<not> cmp z x > 0" by simp
  then have "\<not> cmp x z < 0"
    using consistent_flip [OF c, of x z] by simp
  with le show ?thesis
    by (simp add: ties_def)
qed

lemma filter_ties_insertBy:
  assumes c: "consistent cmp"
  shows "filter (ties cmp x) (insertBy cmp a ys) =
     (if ties cmp x a then a # filter (ties cmp x) ys else filter (ties cmp x) ys)"
proof (induction ys)
  case Nil
  then show ?case by simp
next
  case (Cons y ys)
  show ?case
  proof (cases "cmp a y \<le> 0")
    case True
    then show ?thesis by simp
  next
    case False
    have "\<not> ties cmp x y" if "ties cmp x a"
    proof
      assume "ties cmp x y"
      with c ties_sym [OF c that] have "ties cmp a y"
        by (rule ties_trans)
      with False show False
        by (simp add: ties_def)
    qed
    with False Cons show ?thesis by auto
  qed
qed

lemma arraySort_stable:
  "consistent cmp \<Longrightarrow> filter (ties cmp x) (arraySort cmp xs) = filter (ties cmp x) xs"
  by (induction xs) (simp_all add: arraySort_Nil arraySort_Cons filter_ties_insertBy)

lemma stable_sorted_unique:
  assumes c: "consistent cmp"
    and "sorted_wrt (\<lambda>a b. cmp a b \<le> 0) ys" "sorted_wrt (\<lambda>a b. cmp a b \<le> 0) zs"
    and "\<And>x. filter (ties cmp x) ys = filter (ties cmp x) zs"
  shows "ys = zs"
  using assms(2-)
proof (induction ys arbitrary: zs)
  case Nil
  show ?case
  proof (cases zs)
    case Nil
    then show ?thesis by simp
  next
    case (Cons z zs')
    with Nil.prems(3) [of z] ties_refl [OF c, of z] show ?thesis by simp
  qed
next
  case (Cons y ys)
  from Cons.prems(3) [of y] ties_refl [OF c, of y]
  have fy: "filter (ties cmp y) zs = y # filter (ties cmp y) ys"
    by simp
  then obtain z zs' where zs: "zs = z # zs'"
    by (cases zs) auto
  have yz: "y = z"
  proof (cases "ties cmp y z")
    case True
    with fy zs show ?thesis by simp
  next
    case False
    with fy zs have "y \<in> set (filter (ties cmp y) zs')"
      by (metis filter.simps(2) list.set_intros(1))
    then have "y \<in> set zs'" by simp
    with Cons.prems(2) zs have zy: "cmp z y \<le> 0" by simp
    from False have ne: "z \<noteq> y"
      using ties_refl [OF c, of y] by auto
    from Cons.prems(3) [of z] zs ties_refl [OF c, of z]
    have "z \<in> set (filter (ties cmp z) (y # ys))"
      by simp
    with ne have "z \<in> set ys" by (auto split: if_splits)
    with Cons.prems(1) have le: "cmp y z \<le> 0" by simp
    from le have "\<not> 0 < cmp y z" by simp
    then have "\<not> cmp z y < 0"
      using consistent_flip [OF c, of z y] by simp
    with zy have "cmp z y = 0" by simp
    then have "ties cmp z y" by (simp add: ties_def)
    with c have "ties cmp y z" by (rule ties_sym)
    with False show ?thesis by simp
  qed
  have tl: "filter (ties cmp x) ys = filter (ties cmp x) zs'" for x
    using Cons.prems(3) [of x] zs yz by (simp split: if_splits)
  have "ys = zs'"
    using Cons.prems(1) Cons.prems(2) zs tl by (intro Cons.IH) simp_all
  with zs yz show ?case by simp
qed

lemma arraySort_unique:
  assumes c: "consistent cmp"
    and srt: "inComparatorOrder cmp ys"
    and stable: "\<And>x. filter (ties cmp x) ys = filter (ties cmp x) xs"
  shows "ys = arraySort cmp xs"
proof (rule stable_sorted_unique [OF c])
  show "sorted_wrt (\<lambda>a b. cmp a b \<le> 0) ys"
    using srt by (simp add: inComparatorOrder_def)
  show "sorted_wrt (\<lambda>a b. cmp a b \<le> 0) (arraySort cmp xs)"
    using c by (rule sorted_arraySort)
  show "filter (ties cmp x) ys = filter (ties cmp x) (arraySort cmp xs)" for x
    by (simp only: stable arraySort_stable [OF c])
qed






lemma consistent_dueDate: "consistent compareByDueDate"
  unfolding consistent_def compareByDueDate_def by (auto split: if_splits)



lemma sortTasks_Asc: "sortTasks tasks f Asc = arraySort (COMPARATORS f) tasks"
  by (simp add: sortTasks_def)

lemma sortTasks_Desc: "sortTasks tasks f Desc = rev (arraySort (COMPARATORS f) tasks)"
  by (simp add: sortTasks_def)














text \<open>
  Under the priority field the code puts the critical task first for \<^verbatim>\<open>asc\<close>, where the
  assertion of the sorting test expects it last.
\<close>

lemma TASKS_priority_Asc: "sortTasks TASKS PriorityField Asc = [appleTask, mangoTask, zebraTask]"
  by (simp add: sortTasks_Asc arraySort_def TASKS_def compareByPriority_def
      zebraTask_def appleTask_def mangoTask_def BASE_def)

lemma multiSortCompare_find:
  "multiSortCompare criteria a b =
     (case find (\<lambda>c. COMPARATORS (field c) a b \<noteq> 0) criteria of
        None \<Rightarrow> 0
      | Some c \<Rightarrow> (if order c = Asc then COMPARATORS (field c) a b
                   else - COMPARATORS (field c) a b))"
  by (induction criteria) (simp_all add: Let_def)

lemma compareByDueDate_dated:
  "compareByDueDate a b \<le> 0 \<Longrightarrow> dueDate a = None \<longrightarrow> dueDate b = None"
  by (simp add: compareByDueDate_def split: if_splits)

lemma compareByDueDate_earlier: "compareByDueDate a b \<le> 0 \<Longrightarrow> dueNotAfter a b"
  by (auto simp: compareByDueDate_def dueNotAfter_def split: if_splits option.splits)

lemma dueDate_sorted:
  "sorted_wrt (\<lambda>a b. compareByDueDate a b \<le> 0) (arraySort compareByDueDate tasks)"
  by (rule sorted_arraySort) (rule consistent_dueDate)

lemma dueDate_Asc_dated: "datedBeforeUndated (sortTasks tasks DueDateField Asc)"
  unfolding datedBeforeUndated_def sortTasks_Asc COMPARATORS.simps
  by (rule sorted_wrt_mono_rel [OF _ dueDate_sorted]) (rule compareByDueDate_dated)

lemma dueDate_Asc_earlier: "earlierDueFirst (sortTasks tasks DueDateField Asc)"
  unfolding earlierDueFirst_def sortTasks_Asc COMPARATORS.simps
  by (rule sorted_wrt_mono_rel [OF _ dueDate_sorted]) (rule compareByDueDate_earlier)

lemma dueDate_Desc_undated: "undatedBeforeDated (sortTasks tasks DueDateField Desc)"
  using dueDate_Asc_dated [of tasks]
  by (simp add: undatedBeforeDated_def datedBeforeUndated_def sortTasks_Asc sortTasks_Desc
      sorted_wrt_rev)

lemma dueDate_Desc_later: "laterDueFirst (sortTasks tasks DueDateField Desc)"
  using dueDate_Asc_earlier [of tasks]
  by (simp add: laterDueFirst_def earlierDueFirst_def sortTasks_Asc sortTasks_Desc
      sorted_wrt_rev)

text \<open>
  C3 (as amended). With order \<^verbatim>\<open>asc\<close>, sorting by due date places every task that has
  a due date before every task that lacks one, and of two dated tasks the earlier one
  first. With order \<^verbatim>\<open>desc\<close> the result is the reverse list: the tasks without a due
  date come first and of two dated tasks the later one. The due-date comparator returns
  0 for two tasks that both lack a due date.
\<close>

theorem sortTasks_dueDate:
  "datedBeforeUndated (sortTasks tasks DueDateField Asc)
   \<and> earlierDueFirst (sortTasks tasks DueDateField Asc)
   \<and> sortTasks tasks DueDateField Desc = rev (sortTasks tasks DueDateField Asc)
   \<and> undatedBeforeDated (sortTasks tasks DueDateField Desc)
   \<and> laterDueFirst (sortTasks tasks DueDateField Desc)
   \<and> (dueDate a = None \<and> dueDate b = None \<longrightarrow> compareByDueDate a b = 0)"
proof (intro conjI)
  show "sortTasks tasks DueDateField Desc = rev (sortTasks tasks DueDateField Asc)"
    by (simp only: sortTasks_Asc sortTasks_Desc)
  show "dueDate a = None \<and> dueDate b = None \<longrightarrow> compareByDueDate a b = 0"
    by (simp add: compareByDueDate_def)
qed (rule dueDate_Asc_dated dueDate_Asc_earlier dueDate_Desc_undated dueDate_Desc_later)+

lemma scenario_dueDate_Asc:
  "sortTasks [zebraTask, mangoTask, appleTask] DueDateField Asc = [appleTask, zebraTask, mangoTask]"
  by (simp add: sortTasks_Asc arraySort_def compareByDueDate_def
      zebraTask_def appleTask_def mangoTask_def BASE_def)

lemma TASKS_dueDate_Desc: "sortTasks TASKS DueDateField Desc = [mangoTask, zebraTask, appleTask]"
  by (simp add: sortTasks_Desc arraySort_def TASKS_def compareByDueDate_def
      zebraTask_def appleTask_def mangoTask_def BASE_def)

theorem sortTasks_dueDate_witness:
  "datedBeforeUndated (sortTasks [zebraTask, mangoTask, appleTask] DueDateField Asc)
   \<and> earlierDueFirst (sortTasks [zebraTask, mangoTask, appleTask] DueDateField Asc)
   \<and> sortTasks [zebraTask, mangoTask, appleTask] DueDateField Asc
       = [appleTask, zebraTask, mangoTask]
   \<and> dueDate mangoTask = None
   \<and> compareByDueDate mangoTask mangoTask = 0"
proof -
  note inst = sortTasks_dueDate [of "[zebraTask, mangoTask, appleTask]" mangoTask mangoTask]
  have none: "dueDate mangoTask = None"
    by (simp add: mangoTask_def BASE_def)
  from inst have "datedBeforeUndated (sortTasks [zebraTask, mangoTask, appleTask] DueDateField Asc)"
    and "earlierDueFirst (sortTasks [zebraTask, mangoTask, appleTask] DueDateField Asc)"
    and "dueDate mangoTask = None \<and> dueDate mangoTask = None
      \<longrightarrow> compareByDueDate mangoTask mangoTask = 0"
    by blast+
  with none show ?thesis
    by (simp only: scenario_dueDate_Asc simp_thms)
qed

theorem dueDate_desc_counterexample:
  "\<not> datedBeforeUndated (sortTasks TASKS DueDateField Desc)
   \<and> \<not> earlierDueFirst (sortTasks TASKS DueDateField Desc)"
  by (simp add: TASKS_dueDate_Desc datedBeforeUndated_def earlierDueFirst_def dueNotAfter_def
      zebraTask_def appleTask_def mangoTask_def BASE_def)

text \<open>
  C2 (as amended). \<^verbatim>\<open>multiSort\<close> sorts with the comparator that takes the first
  criterion whose field comparator is not zero on the two tasks and returns that result
  unchanged when the criterion's order is \<^verbatim>\<open>asc\<close> and negated when it is \<^verbatim>\<open>desc\<close>;
  it moves on to the next criterion only on a result of exactly zero, and returns zero
  when every criterion ties.
\<close>

theorem multiSort_tiebreak:
  "multiSort tasks criteria = arraySort (multiSortCompare criteria) tasks
   \<and> mset (multiSort tasks criteria) = mset tasks
   \<and> multiSortCompare criteria a b =
       (case find (\<lambda>c. COMPARATORS (field c) a b \<noteq> 0) criteria of
          None \<Rightarrow> 0
        | Some c \<Rightarrow> (if order c = Asc then COMPARATORS (field c) a b
                     else - COMPARATORS (field c) a b))"
  by (simp only: multiSort_def mset_arraySort multiSortCompare_find simp_thms)

lemma tie_compare: "multiSortCompare tieCriteria zapTask alphaTask = 1"
  by (simp add: tieCriteria_def zapTask_def alphaTask_def BASE_def compareByPriority_def
      compareByTitle_def toLowerCase_def lowerChar_def)

lemma tie_compare_spec: "multiSortCompare_spec tieCriteria zapTask alphaTask = - 1"
  by (simp add: tieCriteria_def zapTask_def alphaTask_def BASE_def compareByPriority_def
      compareByTitle_def toLowerCase_def lowerChar_def)

lemma tie_multiSort: "multiSort [zapTask, alphaTask] tieCriteria = [alphaTask, zapTask]"
  by (simp add: multiSort_def arraySort_def tie_compare)

theorem multiSort_tiebreak_witness:
  "multiSort [zapTask, alphaTask] tieCriteria = [alphaTask, zapTask]
   \<and> multiSortCompare tieCriteria zapTask alphaTask = COMPARATORS TitleField zapTask alphaTask"
proof -
  from multiSort_tiebreak [of "[zapTask, alphaTask]" tieCriteria zapTask alphaTask]
  have "multiSortCompare tieCriteria zapTask alphaTask =
       (case find (\<lambda>c. COMPARATORS (field c) zapTask alphaTask \<noteq> 0) tieCriteria of
          None \<Rightarrow> 0
        | Some c \<Rightarrow> (if order c = Asc then COMPARATORS (field c) zapTask alphaTask
                     else - COMPARATORS (field c) zapTask alphaTask))"
    by (rule conjunct2 [OF conjunct2])
  also have "\<dots> = COMPARATORS TitleField zapTask alphaTask"
    by (simp add: tieCriteria_def zapTask_def alphaTask_def BASE_def
        compareByPriority_def compareByTitle_def toLowerCase_def lowerChar_def)
  finally show ?thesis
    by (simp only: tie_multiSort simp_thms)
qed

theorem multiSort_asc_counterexample:
  "multiSortCompare tieCriteria zapTask alphaTask \<noteq> multiSortCompare_spec tieCriteria zapTask alphaTask
   \<and> multiSort [zapTask, alphaTask] tieCriteria = [alphaTask, zapTask]
   \<and> arraySort (multiSortCompare_spec tieCriteria) [zapTask, alphaTask] = [zapTask, alphaTask]"
  by (simp add: tie_compare tie_compare_spec tie_multiSort arraySort_def)

section \<open>Properties of the statistics\<close>

lemma increment_apply:
  "increment m k k' = (if k' = k then map_option Suc (m k) else m k')"
  by (cases "m k") (simp_all add: increment_def)

lemma statsStep_byStatus:
  "byStatus (statsStep now s t) k =
     (if k = status t then map_option Suc (byStatus s k) else byStatus s k)"
  by (simp add: statsStep_def Let_def increment_apply)

lemma statsStep_byPriority:
  "byPriority (statsStep now s t) k =
     (if k = priority t then map_option Suc (byPriority s k) else byPriority s k)"
  by (simp add: statsStep_def Let_def increment_apply)

lemma statsStep_byCategory:
  "byCategory (statsStep now s t) k =
     (if k = category t then map_option Suc (byCategory s k) else byCategory s k)"
  by (simp add: statsStep_def Let_def increment_apply)

lemma statsStep_overdue:
  "overdue (statsStep now s t) = (if isTaskOverdue now t then overdue s + 1 else overdue s)"
  by (simp add: statsStep_def Let_def)

lemma statsStep_total: "total (statsStep now s t) = total s"
  by (simp add: statsStep_def Let_def)

lemma statsStep_completionRate: "completionRate (statsStep now s t) = completionRate s"
  by (simp add: statsStep_def Let_def)

lemma foldl_byStatus:
  "byStatus (foldl (statsStep now) s ts) k =
     map_option (\<lambda>n. n + countBy (\<lambda>t. status t = k) ts) (byStatus s k)"
proof (induction ts arbitrary: s)
  case Nil
  then show ?case by (simp add: countBy_def option.map_ident)
next
  case (Cons t ts)
  then show ?case
    by (cases "byStatus s k") (auto simp: statsStep_byStatus countBy_def)
qed

lemma foldl_byPriority:
  "byPriority (foldl (statsStep now) s ts) k =
     map_option (\<lambda>n. n + countBy (\<lambda>t. priority t = k) ts) (byPriority s k)"
proof (induction ts arbitrary: s)
  case Nil
  then show ?case by (simp add: countBy_def option.map_ident)
next
  case (Cons t ts)
  then show ?case
    by (cases "byPriority s k") (auto simp: statsStep_byPriority countBy_def)
qed

lemma foldl_byCategory:
  "byCategory (foldl (statsStep now) s ts) k =
     map_option (\<lambda>n. n + countBy (\<lambda>t. category t = k) ts) (byCategory s k)"
proof (induction ts arbitrary: s)
  case Nil
  then show ?case by (simp add: countBy_def option.map_ident)
next
  case (Cons t ts)
  then show ?case
    by (cases "byCategory s k") (auto simp: statsStep_byCategory countBy_def)
qed

lemma foldl_overdue:
  "overdue (foldl (statsStep now) s ts) = overdue s + countBy (isTaskOverdue now) ts"
  by (induction ts arbitrary: s) (simp_all add: statsStep_overdue countBy_def)

lemma foldl_total: "total (foldl (statsStep now) s ts) = total s"
  by (induction ts arbitrary: s) (simp_all add: statsStep_total)

lemma initial_byStatus: "byStatus (initialStats n) k = Some 0"
  by (cases k) (simp_all add: initialStats_def)

lemma initial_byPriority: "byPriority (initialStats n) k = Some 0"
  by (cases k) (simp_all add: initialStats_def)

lemma initial_byCategory: "byCategory (initialStats n) k = Some 0"
  by (cases k) (simp_all add: initialStats_def)

lemma calculateStats_byStatus:
  "byStatus (calculateStats now tasks) k = Some (countBy (\<lambda>t. status t = k) tasks)"
  by (simp add: calculateStats_def Let_def foldl_byStatus initial_byStatus)

lemma calculateStats_byPriority:
  "byPriority (calculateStats now tasks) k = Some (countBy (\<lambda>t. priority t = k) tasks)"
  by (simp add: calculateStats_def Let_def foldl_byPriority initial_byPriority)

lemma calculateStats_byCategory:
  "byCategory (calculateStats now tasks) k = Some (countBy (\<lambda>t. category t = k) tasks)"
  by (simp add: calculateStats_def Let_def foldl_byCategory initial_byCategory)

lemma calculateStats_overdue:
  "overdue (calculateStats now tasks) = countBy (isTaskOverdue now) tasks"
  by (simp add: calculateStats_def Let_def foldl_overdue initialStats_def)

lemma calculateStats_total: "total (calculateStats now tasks) = length tasks"
  by (simp add: calculateStats_def Let_def foldl_total initialStats_def)

lemma calculateStats_completionRate:
  "completionRate (calculateStats now tasks) =
     (if length tasks > 0
      then Math_round
             (float_mul
                (float_div (of_nat (countBy (\<lambda>t. status t = Done) tasks)) (of_nat (length tasks)))
                100)
      else 0)"
  by (simp add: calculateStats_def Let_def foldl_byStatus initial_byStatus counter_def)











































lemma countBy_mset: "countBy p xs = size (filter_mset p (mset xs))"
  by (simp add: countBy_def flip: mset_filter)

lemma countBy_perm: "mset xs = mset ys \<Longrightarrow> countBy p xs = countBy p ys"
  by (simp add: countBy_mset)

lemma length_perm: "mset xs = mset ys \<Longrightarrow> length xs = length ys"
  by (rule mset_eq_length)

text \<open>
  C6. At a fixed current time, \<^verbatim>\<open>calculateStats\<close> returns the same record for every
  permutation of a task list.
\<close>

theorem calculateStats_permutation:
  assumes "mset tasks' = mset tasks"
  shows "calculateStats now tasks' = calculateStats now tasks"
proof (rule TaskStats.equality)
  have c: "countBy p tasks' = countBy p tasks" for p :: "Task \<Rightarrow> bool"
    using assms by (rule countBy_perm)
  have l: "length tasks' = length tasks"
    using assms by (rule length_perm)
  show "total (calculateStats now tasks') = total (calculateStats now tasks)"
    by (simp only: calculateStats_total l)
  show "byStatus (calculateStats now tasks') = byStatus (calculateStats now tasks)"
    by (rule ext) (simp only: calculateStats_byStatus c)
  show "byPriority (calculateStats now tasks') = byPriority (calculateStats now tasks)"
    by (rule ext) (simp only: calculateStats_byPriority c)
  show "byCategory (calculateStats now tasks') = byCategory (calculateStats now tasks)"
    by (rule ext) (simp only: calculateStats_byCategory c)
  show "overdue (calculateStats now tasks') = overdue (calculateStats now tasks)"
    by (simp only: calculateStats_overdue c)
  show "completionRate (calculateStats now tasks') = completionRate (calculateStats now tasks)"
    by (simp only: calculateStats_completionRate c l)
  show "TaskStats.more (calculateStats now tasks') = TaskStats.more (calculateStats now tasks)"
    by simp
qed

theorem calculateStats_permutation_witness:
  "mset [mangoTask, zebraTask, appleTask] = mset TASKS
   \<and> calculateStats 1718452800000 [mangoTask, zebraTask, appleTask]
       = calculateStats 1718452800000 TASKS"
proof -
  have p: "mset [mangoTask, zebraTask, appleTask] = mset TASKS"
    by (simp add: TASKS_def)
  from calculateStats_permutation [OF p] p show ?thesis
    by (rule conjI [rotated])
qed

section \<open>Properties of the filter pipeline\<close>

lemma preserves_refl: "preserves h h"
  by (simp add: preserves_def)

lemma preserves_trans: "preserves h h1 \<Longrightarrow> preserves h1 h2 \<Longrightarrow> preserves h h2"
  by (auto simp: preserves_def)

lemma preserves_contents: "preserves h h' \<Longrightarrow> r < nextRef h \<Longrightarrow> contents h' r = contents h r"
  by (simp add: preserves_def contents_def)

lemma implementsI:
  assumes "\<And>r h r' h'. r < nextRef h \<Longrightarrow> op r h = (r', h') \<Longrightarrow>
        contents h' r' = g (contents h r) \<and> r' < nextRef h' \<and> preserves h h'"
  shows "implements op g"
  using assms unfolding implements_def by blast

lemma implementsD:
  assumes "implements op g" "r < nextRef h" "op r h = (r', h')"
  shows "contents h' r' = g (contents h r)" "r' < nextRef h'" "preserves h h'"
  using assms unfolding implements_def by blast+

lemma implements_id: "implements (\<lambda>r h. (r, h)) (\<lambda>xs. xs)"
  by (rule implementsI) (simp add: preserves_refl)

lemma implements_alloc:
  "implements (\<lambda>r h. alloc (g (contents h r)) h) g"
  by (rule implementsI) (auto simp: alloc_def contents_def preserves_def)

lemma implements_array_filter: "implements (array_filter p) (filter p)"
  unfolding array_filter_def by (rule implements_alloc)

lemma implements_filterTasksBySearch:
  "implements (\<lambda>r. filterTasksBySearch_st r query) (\<lambda>xs. filterTasksBySearch xs query)"
proof (cases "toLowerCase (trim query) = []")
  case True
  then show ?thesis
    using implements_id [where 'a = Task]
    by (simp add: filterTasksBySearch_st_def [abs_def] filterTasksBySearch_def [abs_def])
next
  case False
  then show ?thesis
    using implements_array_filter [of "searchCallback (toLowerCase (trim query))"]
    by (simp add: filterTasksBySearch_st_def [abs_def] filterTasksBySearch_def [abs_def])
qed

lemma implements_filterByPriority:
  "implements (\<lambda>r. filterByPriority_st r p) (\<lambda>xs. filterByPriority xs p)"
proof (cases p)
  case All
  then show ?thesis
    using implements_id [where 'a = Task]
    by (simp add: filterByPriority_st_def [abs_def] filterByPriority_def [abs_def])
next
  case (Exact v)
  then show ?thesis
    using implements_array_filter [of "\<lambda>t. priority t = v"]
    by (simp add: filterByPriority_st_def [abs_def] filterByPriority_def [abs_def])
qed

lemma implements_filterByCategory:
  "implements (\<lambda>r. filterByCategory_st r c) (\<lambda>xs. filterByCategory xs c)"
proof (cases c)
  case All
  then show ?thesis
    using implements_id [where 'a = Task]
    by (simp add: filterByCategory_st_def [abs_def] filterByCategory_def [abs_def])
next
  case (Exact v)
  then show ?thesis
    using implements_array_filter [of "\<lambda>t. category t = v"]
    by (simp add: filterByCategory_st_def [abs_def] filterByCategory_def [abs_def])
qed

lemma implements_filterByStatus:
  "implements (\<lambda>r. filterByStatus_st r s) (\<lambda>xs. filterByStatus xs s)"
proof (cases s)
  case All
  then show ?thesis
    using implements_id [where 'a = Task]
    by (simp add: filterByStatus_st_def [abs_def] filterByStatus_def [abs_def])
next
  case (Exact v)
  then show ?thesis
    using implements_array_filter [of "\<lambda>t. status t = v"]
    by (simp add: filterByStatus_st_def [abs_def] filterByStatus_def [abs_def])
qed

lemma implements_sortTasks:
  "implements (\<lambda>r. sortTasks_st r f ord) (\<lambda>xs. sortTasks xs f ord)"
  by (rule implementsI)
    (auto simp: sortTasks_st_def sortTasks_def array_copy_def array_sort_def array_reverse_def
      alloc_def contents_def preserves_def Let_def)

lemma applyFilters_st_implements:
  "implements (\<lambda>r. applyFilters_st r filters) (\<lambda>xs. applyFilters xs filters)"
proof (rule implementsI)
  fix r h r' h'
  assume r: "r < nextRef h" and run: "applyFilters_st r filters h = (r', h')"
  obtain r1 h1 where s1: "filterTasksBySearch_st r (search filters) h = (r1, h1)"
    by (cases "filterTasksBySearch_st r (search filters) h")
  obtain r2 h2 where s2: "filterByPriority_st r1 (priorityFilter filters) h1 = (r2, h2)"
    by (cases "filterByPriority_st r1 (priorityFilter filters) h1")
  obtain r3 h3 where s3: "filterByCategory_st r2 (categoryFilter filters) h2 = (r3, h3)"
    by (cases "filterByCategory_st r2 (categoryFilter filters) h2")
  obtain r4 h4 where s4: "filterByStatus_st r3 (statusFilter filters) h3 = (r4, h4)"
    by (cases "filterByStatus_st r3 (statusFilter filters) h3")
  obtain r5 h5 where s5: "sortTasks_st r4 (sortBy filters) (sortOrder filters) h4 = (r5, h5)"
    by (cases "sortTasks_st r4 (sortBy filters) (sortOrder filters) h4")
  from run s1 s2 s3 s4 s5 have res: "r' = r5" "h' = h5"
    by (simp_all add: applyFilters_st_def)
  note a1 = implementsD [OF implements_filterTasksBySearch r s1]
  note a2 = implementsD [OF implements_filterByPriority a1(2) s2]
  note a3 = implementsD [OF implements_filterByCategory a2(2) s3]
  note a4 = implementsD [OF implements_filterByStatus a3(2) s4]
  note a5 = implementsD [OF implements_sortTasks a4(2) s5]
  have "preserves h h5"
    using a1(3) a2(3) a3(3) a4(3) a5(3) by (blast intro: preserves_trans)
  moreover have "contents h5 r5 = applyFilters (contents h r) filters"
    by (simp add: applyFilters_def a1(1) a2(1) a3(1) a4(1) a5(1))
  ultimately show "contents h' r' = applyFilters (contents h r) filters
      \<and> r' < nextRef h' \<and> preserves h h'"
    using a5(2) res by simp
qed

lemma applyFilters_stages:
  "applyFilters tasks filters =
     sortTasks
       (filterByStatus
          (filterByCategory
             (filterByPriority (filterTasksBySearch tasks (search filters))
                (priorityFilter filters))
             (categoryFilter filters))
          (statusFilter filters))
       (sortBy filters) (sortOrder filters)"
  by (simp add: applyFilters_def)

lemma sortTasks_Nil: "sortTasks [] f ord = []"
  by (simp add: sortTasks_def arraySort_def)

lemma applyFilters_scenario:
  assumes "priority t1 = Low" "status t1 = Todo" "priority t2 = Critical" "status t2 = Done"
    and "priorityFilter filters = Exact Critical" "statusFilter filters = Exact Todo"
  shows "applyFilters [t1, t2] filters = []"
proof -
  have sub: "subseq (filterTasksBySearch [t1, t2] (search filters)) [t1, t2]"
    by (rule filterTasksBySearch_subseq)
  have p: "filterByPriority (filterTasksBySearch [t1, t2] (search filters)) (Exact Critical)
      = filter (\<lambda>t. priority t = Critical) (filterTasksBySearch [t1, t2] (search filters))"
    by (simp add: filterByPriority_def)
  have set1: "set (filterByPriority (filterTasksBySearch [t1, t2] (search filters)) (Exact Critical))
      \<subseteq> {t2}"
    using assms(1) unfolding p
    by (auto simp: filterTasksBySearch_def Let_def)
  have set2: "set (filterByCategory xs c) \<subseteq> set xs" for xs c
    by (cases c) (auto simp: filterByCategory_def)
  have "filterByStatus
          (filterByCategory
             (filterByPriority (filterTasksBySearch [t1, t2] (search filters)) (Exact Critical))
             (categoryFilter filters))
          (Exact Todo) = []"
    using set1 set2 [of "filterByPriority (filterTasksBySearch [t1, t2] (search filters)) (Exact Critical)"
        "categoryFilter filters"] assms(4)
    by (auto simp: filterByStatus_def filter_empty_conv)
  then show ?thesis
    by (simp add: applyFilters_stages assms(5,6) sortTasks_Nil)
qed

text \<open>
  C7. \<^verbatim>\<open>applyFilters\<close> is the fixed composition search, priority filter, category
  filter, status filter, sort by \<^verbatim>\<open>(sortBy, sortOrder)\<close>, each stage consuming the
  previous stage's output; the array that the store-level function returns holds exactly
  that list. On a low todo task and a critical done task with the filters priority
  critical and status todo the result is empty.
\<close>

theorem applyFilters_pipeline:
  "applyFilters tasks filters =
     sortTasks
       (filterByStatus
          (filterByCategory
             (filterByPriority (filterTasksBySearch tasks (search filters))
                (priorityFilter filters))
             (categoryFilter filters))
          (statusFilter filters))
       (sortBy filters) (sortOrder filters)
   \<and> (r < nextRef h \<longrightarrow>
        contents (snd (applyFilters_st r filters h)) (fst (applyFilters_st r filters h))
          = applyFilters (contents h r) filters)
   \<and> (priority t1 = Low \<and> status t1 = Todo \<and> priority t2 = Critical \<and> status t2 = Done
        \<and> priorityFilter filters = Exact Critical \<and> statusFilter filters = Exact Todo
        \<longrightarrow> applyFilters [t1, t2] filters = [])"
proof (intro conjI impI)
  show "applyFilters tasks filters =
     sortTasks
       (filterByStatus
          (filterByCategory
             (filterByPriority (filterTasksBySearch tasks (search filters))
                (priorityFilter filters))
             (categoryFilter filters))
          (statusFilter filters))
       (sortBy filters) (sortOrder filters)"
    by (rule applyFilters_stages)
next
  assume "r < nextRef h"
  then show "contents (snd (applyFilters_st r filters h)) (fst (applyFilters_st r filters h))
      = applyFilters (contents h r) filters"
    by (rule implementsD(1) [OF applyFilters_st_implements]) simp
next
  assume "priority t1 = Low \<and> status t1 = Todo \<and> priority t2 = Critical \<and> status t2 = Done
        \<and> priorityFilter filters = Exact Critical \<and> statusFilter filters = Exact Todo"
  then show "applyFilters [t1, t2] filters = []"
    by (intro applyFilters_scenario) simp_all
qed

lemma TASKS_default: "applyFilters TASKS DEFAULT_FILTERS = [zebraTask, mangoTask, appleTask]"
  by (simp add: applyFilters_def DEFAULT_FILTERS_def filterTasksBySearch_def trim_def
      toLowerCase_def filterByPriority_def filterByCategory_def filterByStatus_def
      sortTasks_Desc arraySort_def TASKS_def compareByCreatedAt_def
      zebraTask_def appleTask_def mangoTask_def BASE_def)

lemma store0_facts:
  "0 < nextRef store0" "1 < nextRef store0" "contents store0 0 = TASKS"
  "contents store0 (Suc 0) = TASKS"
  by (simp_all add: store0_def contents_def)

theorem applyFilters_pipeline_witness:
  "contents (snd (applyFilters_st 0 DEFAULT_FILTERS store0))
      (fst (applyFilters_st 0 DEFAULT_FILTERS store0)) = [zebraTask, mangoTask, appleTask]
   \<and> priority lowTodo = Low \<and> status criticalDone = Done
   \<and> applyFilters [lowTodo, criticalDone]
        (DEFAULT_FILTERS\<lparr>priorityFilter := Exact Critical, statusFilter := Exact Todo\<rparr>) = []"
proof -
  note inst = applyFilters_pipeline [of TASKS DEFAULT_FILTERS 0 store0 lowTodo criticalDone]
  note inst2 = applyFilters_pipeline [of TASKS
      "DEFAULT_FILTERS\<lparr>priorityFilter := Exact Critical, statusFilter := Exact Todo\<rparr>"
      0 store0 lowTodo criticalDone]
  have pre: "priority lowTodo = Low" "status lowTodo = Todo" "priority criticalDone = Critical"
    "status criticalDone = Done"
    by (simp_all add: lowTodo_def criticalDone_def BASE_def)
  from inst store0_facts(1)
  have "contents (snd (applyFilters_st 0 DEFAULT_FILTERS store0))
      (fst (applyFilters_st 0 DEFAULT_FILTERS store0)) = applyFilters (contents store0 0) DEFAULT_FILTERS"
    by blast
  then have a: "contents (snd (applyFilters_st 0 DEFAULT_FILTERS store0))
      (fst (applyFilters_st 0 DEFAULT_FILTERS store0)) = [zebraTask, mangoTask, appleTask]"
    by (simp only: store0_facts TASKS_default)
  from inst2 pre have b: "applyFilters [lowTodo, criticalDone]
        (DEFAULT_FILTERS\<lparr>priorityFilter := Exact Critical, statusFilter := Exact Todo\<rparr>) = []"
    by simp
  from a b pre show ?thesis
    by (simp only: simp_thms)
qed

text \<open>
  C8. Two calls of \<^verbatim>\<open>applyFilters\<close> with the same filters, one after the other, on the
  same array (\<open>q = r\<close>) or on two arrays with identical contents, return arrays with the
  same elements in the same order. The first result is still intact after the second
  call, and the input arrays are unchanged.
\<close>

theorem applyFilters_repeatable:
  assumes "r < nextRef h" and "q < nextRef h" and "contents h q = contents h r"
    and "applyFilters_st r filters h = (r1, h1)"
    and "applyFilters_st q filters h1 = (r2, h2)"
  shows "contents h2 r2 = contents h1 r1
    \<and> contents h2 r1 = contents h1 r1
    \<and> contents h1 r1 = applyFilters (contents h r) filters
    \<and> contents h2 r = contents h r
    \<and> contents h2 q = contents h q"
proof -
  note a = implementsD [OF applyFilters_st_implements assms(1) assms(4)]
  from a(3) assms(2) have q1: "q < nextRef h1"
    by (simp add: preserves_def)
  from a(3) assms(1) have r1: "r < nextRef h1"
    by (simp add: preserves_def)
  note b = implementsD [OF applyFilters_st_implements q1 assms(5)]
  have cq: "contents h1 q = contents h q"
    using a(3) assms(2) by (rule preserves_contents)
  have cr: "contents h1 r = contents h r"
    using a(3) assms(1) by (rule preserves_contents)
  have "contents h2 r2 = contents h1 r1"
    by (simp only: b(1) a(1) cq assms(3))
  moreover have "contents h2 r1 = contents h1 r1"
    using b(3) a(2) by (rule preserves_contents)
  moreover have "contents h2 r = contents h r"
    using preserves_contents [OF b(3) r1] cr by simp
  moreover have "contents h2 q = contents h q"
    using preserves_contents [OF b(3) q1] cq by simp
  ultimately show ?thesis
    using a(1) by simp
qed

theorem applyFilters_repeatable_witness:
  "contents (snd (applyFilters_st 1 DEFAULT_FILTERS (snd (applyFilters_st 0 DEFAULT_FILTERS store0))))
      (fst (applyFilters_st 1 DEFAULT_FILTERS (snd (applyFilters_st 0 DEFAULT_FILTERS store0))))
     = [zebraTask, mangoTask, appleTask]
   \<and> contents (snd (applyFilters_st 1 DEFAULT_FILTERS (snd (applyFilters_st 0 DEFAULT_FILTERS store0))))
      (fst (applyFilters_st 0 DEFAULT_FILTERS store0))
     = [zebraTask, mangoTask, appleTask]
   \<and> contents (snd (applyFilters_st 1 DEFAULT_FILTERS (snd (applyFilters_st 0 DEFAULT_FILTERS store0)))) 0
     = TASKS"
proof -
  have eq: "contents store0 1 = contents store0 0"
    by (simp add: store0_facts)
  have c1: "applyFilters_st 0 DEFAULT_FILTERS store0 =
      (fst (applyFilters_st 0 DEFAULT_FILTERS store0), snd (applyFilters_st 0 DEFAULT_FILTERS store0))"
    by simp
  have c2: "applyFilters_st 1 DEFAULT_FILTERS (snd (applyFilters_st 0 DEFAULT_FILTERS store0)) =
      (fst (applyFilters_st 1 DEFAULT_FILTERS (snd (applyFilters_st 0 DEFAULT_FILTERS store0))),
       snd (applyFilters_st 1 DEFAULT_FILTERS (snd (applyFilters_st 0 DEFAULT_FILTERS store0))))"
    by simp
  note inst = applyFilters_repeatable [OF store0_facts(1) store0_facts(2) eq c1 c2]
  then show ?thesis
    by (simp only: store0_facts TASKS_default simp_thms)
qed

section \<open>Properties of record updates\<close>

lemma updateTask_st_fresh:
  assumes "cells h r = Some task" "r < nextRef h"
  shows "\<exists>r' h'. updateTask_st now r updates h = Some (r', h')
           \<and> cells h' r' = Some (updateTask now task updates)
           \<and> cells h' r = Some task \<and> r' \<noteq> r"
  using assms by (simp add: updateTask_st_def alloc_def)

text \<open>
  C9. \<^verbatim>\<open>updateTask\<close> returns a record whose \<open>id\<close> and \<open>createdAt\<close> are those of the
  original task whatever the payload holds for them, whose \<open>updatedAt\<close> is the current
  timestamp, and whose every other field is the payload's value when the key is supplied
  and the original's value otherwise. On a store of task objects the call always
  succeeds for a reference that holds a task, returns a fresh reference, and leaves the
  original object as it was.
\<close>

theorem updateTask_protected:
  "id_task (updateTask now task updates) = id_task task
   \<and> createdAt (updateTask now task updates) = createdAt task
   \<and> updatedAt (updateTask now task updates) = now
   \<and> title (updateTask now task updates)
       = (case title_upd updates of None \<Rightarrow> title task | Some v \<Rightarrow> v)
   \<and> description (updateTask now task updates)
       = (case description_upd updates of None \<Rightarrow> description task | Some v \<Rightarrow> v)
   \<and> priority (updateTask now task updates)
       = (case priority_upd updates of None \<Rightarrow> priority task | Some v \<Rightarrow> v)
   \<and> category (updateTask now task updates)
       = (case category_upd updates of None \<Rightarrow> category task | Some v \<Rightarrow> v)
   \<and> status (updateTask now task updates)
       = (case status_upd updates of None \<Rightarrow> status task | Some v \<Rightarrow> v)
   \<and> dueDate (updateTask now task updates)
       = (case dueDate_upd updates of None \<Rightarrow> dueDate task | Some v \<Rightarrow> v)
   \<and> tags (updateTask now task updates)
       = (case tags_upd updates of None \<Rightarrow> tags task | Some v \<Rightarrow> v)
   \<and> assignee (updateTask now task updates)
       = (case assignee_upd updates of None \<Rightarrow> assignee task | Some v \<Rightarrow> v)
   \<and> (cells h r = Some task \<and> r < nextRef h \<longrightarrow>
        (\<exists>r' h'. updateTask_st now r updates h = Some (r', h')
           \<and> cells h' r' = Some (updateTask now task updates)
           \<and> cells h' r = Some task \<and> r' \<noteq> r))"
proof (intro conjI impI)
  assume "cells h r = Some task \<and> r < nextRef h"
  then show "\<exists>r' h'. updateTask_st now r updates h = Some (r', h')
           \<and> cells h' r' = Some (updateTask now task updates)
           \<and> cells h' r = Some task \<and> r' \<noteq> r"
    by (intro updateTask_st_fresh) simp_all
qed (simp_all add: updateTask_def spread_def spreadKey_def)

theorem updateTask_protected_witness:
  "cells taskStore0 0 = Some appleTask
   \<and> id_task (updateTask 1718452800000 appleTask hackedUpdates) = ''2''
   \<and> createdAt (updateTask 1718452800000 appleTask hackedUpdates) = 1704240000000
   \<and> updatedAt (updateTask 1718452800000 appleTask hackedUpdates) = 1718452800000
   \<and> title (updateTask 1718452800000 appleTask hackedUpdates) = ''New title''
   \<and> dueDate (updateTask 1718452800000 appleTask hackedUpdates) = None
   \<and> priority (updateTask 1718452800000 appleTask hackedUpdates) = Critical
   \<and> (\<exists>r' h'. updateTask_st 1718452800000 0 hackedUpdates taskStore0 = Some (r', h')
         \<and> cells h' r' = Some (updateTask 1718452800000 appleTask hackedUpdates)
         \<and> cells h' 0 = Some appleTask \<and> r' \<noteq> 0)"
proof -
  have pre: "cells taskStore0 0 = Some appleTask \<and> 0 < nextRef taskStore0"
    by (simp add: taskStore0_def)
  note inst = updateTask_protected [of 1718452800000 appleTask hackedUpdates taskStore0 0]
  from inst pre have st: "\<exists>r' h'. updateTask_st 1718452800000 0 hackedUpdates taskStore0 = Some (r', h')
         \<and> cells h' r' = Some (updateTask 1718452800000 appleTask hackedUpdates)
         \<and> cells h' 0 = Some appleTask \<and> r' \<noteq> 0"
    by blast
  have vals: "id_task appleTask = ''2''" "createdAt appleTask = 1704240000000"
    "priority appleTask = Critical" "title_upd hackedUpdates = Some ''New title''"
    "dueDate_upd hackedUpdates = Some None" "priority_upd hackedUpdates = None"
    by (simp_all add: appleTask_def BASE_def hackedUpdates_def noUpdates_def)
  from inst have
    "id_task (updateTask 1718452800000 appleTask hackedUpdates) = id_task appleTask"
    "createdAt (updateTask 1718452800000 appleTask hackedUpdates) = createdAt appleTask"
    "updatedAt (updateTask 1718452800000 appleTask hackedUpdates) = 1718452800000"
    "title (updateTask 1718452800000 appleTask hackedUpdates)
       = (case title_upd hackedUpdates of None \<Rightarrow> title appleTask | Some v \<Rightarrow> v)"
    "dueDate (updateTask 1718452800000 appleTask hackedUpdates)
       = (case dueDate_upd hackedUpdates of None \<Rightarrow> dueDate appleTask | Some v \<Rightarrow> v)"
    "priority (updateTask 1718452800000 appleTask hackedUpdates)
       = (case priority_upd hackedUpdates of None \<Rightarrow> priority appleTask | Some v \<Rightarrow> v)"
    by blast+
  with vals st pre show ?thesis
    by simp
qed

end
